theory Spec2Isabelle
  imports Main "HOL-Library.Word"
begin

section \<open>JavaScript values\<close>

text \<open>
  A JavaScript string is a sequence of UTF-16 code units. The string literals of the
  source are ASCII; \<open>ascii\<close> embeds such a literal.
\<close>

type_synonym jsstring = "16 word list"

definition ascii :: "string \<Rightarrow> jsstring" where
  "ascii s = map of_char s"

text \<open>
  The values that reach the gateway as data: GraphQL arguments, parsed JSON bodies,
  error objects. \<open>JNum\<close> holds a Number that is an integer from \<open>-2^53\<close> to
  \<open>2^53 - 1\<close>, read off the word by \<open>sint\<close>: a Number holds these integers exactly and
  Number::toString writes them in plain decimal digits; no other Number is a value of
  the type. \<open>JObj\<close> is a plain object (its prototype is \<open>Object.prototype\<close>), given by its
  own enumerable string-keyed properties (of distinct names) in the order in which
  \<open>for ... in\<close> visits them; every property holds a value of the type, so none holds a
  function.
\<close>

datatype jsval =
    JUndefined
  | JNull
  | JBool bool
  | JNum "54 word"
  | JStr jsstring
  | JArr "jsval list"
  | JObj "(jsstring \<times> jsval) list"

text \<open>Exceptions of the language itself, as values.\<close>

datatype jserror = TypeError | URIError

text \<open>ToBoolean: \<open>undefined\<close>, \<open>null\<close>, \<open>false\<close>, \<open>0\<close> and \<open>""\<close> are falsy.\<close>

fun truthy :: "jsval \<Rightarrow> bool" where
  "truthy JUndefined = False"
| "truthy JNull = False"
| "truthy (JBool b) = b"
| "truthy (JNum n) = (n \<noteq> 0)"
| "truthy (JStr s) = (s \<noteq> [])"
| "truthy (JArr vs) = True"
| "truthy (JObj ps) = True"

text \<open>Decimal digits of a natural number, and Number::toString on the integers of \<open>JNum\<close>.\<close>

fun decimal :: "nat \<Rightarrow> jsstring" where
  "decimal n =
     (if n < 10 then [of_nat (48 + n)]
      else decimal (n div 10) @ [of_nat (48 + n mod 10)])"

declare decimal.simps [simp del]

definition numToString :: "54 word \<Rightarrow> jsstring" where
  "numToString n =
     (if sint n < 0 then ascii ''-'' @ decimal (nat (- sint n)) else decimal (nat (sint n)))"

text \<open>\<open>xs.join(sep)\<close> on strings that are already converted.\<close>

fun join :: "jsstring list \<Rightarrow> jsstring \<Rightarrow> jsstring" where
  "join [] sep = []"
| "join [x] sep = x"
| "join (x # y # ys) sep = x @ sep @ join (y # ys) sep"

text \<open>
  ToString, as a template literal \<open>`${v}`\<close> applies it, and the conversion of the
  elements of an array that \<open>join\<close> makes, from the left (\<open>undefined\<close> and \<open>null\<close>
  elements give the empty string). An array prints as its elements joined by a comma.
  A plain object prints as \<open>[object Object]\<close> through the \<open>toString\<close> it inherits; when
  it has an own property \<open>toString\<close>, that property is not a function and the
  \<open>valueOf\<close> it has or inherits gives no primitive, so the conversion raises
  \<open>TypeError\<close>.
\<close>

fun toString :: "jsval \<Rightarrow> jserror + jsstring"
  and elementStrings :: "jsval list \<Rightarrow> jserror + jsstring list" where
  "toString JUndefined = Inr (ascii ''undefined'')"
| "toString JNull = Inr (ascii ''null'')"
| "toString (JBool b) = Inr (if b then ascii ''true'' else ascii ''false'')"
| "toString (JNum n) = Inr (numToString n)"
| "toString (JStr s) = Inr s"
| "toString (JArr vs) =
     (case elementStrings vs of
        Inl e \<Rightarrow> Inl e
      | Inr strs \<Rightarrow> Inr (join strs (ascii '','')))"
| "toString (JObj ps) =
     (if ascii ''toString'' \<in> set (map fst ps) then Inl TypeError
      else Inr (ascii ''[object Object]''))"
| "elementStrings [] = Inr []"
| "elementStrings (v # vs) =
     (case (if v = JUndefined \<or> v = JNull then Inr [] else toString v) of
        Inl e \<Rightarrow> Inl e
      | Inr s \<Rightarrow>
          (case elementStrings vs of
             Inl e \<Rightarrow> Inl e
           | Inr strs \<Rightarrow> Inr (s # strs)))"

text \<open>The string of one element of an array in \<open>join\<close>.\<close>

definition elemToString :: "jsval \<Rightarrow> jserror + jsstring" where
  "elemToString v = (if v = JUndefined \<or> v = JNull then Inr [] else toString v)"

text \<open>\<open>Array.prototype.join\<close>.\<close>

definition arrayJoin :: "jsval list \<Rightarrow> jsstring \<Rightarrow> jserror + jsstring" where
  "arrayJoin vs sep =
     (case elementStrings vs of Inl e \<Rightarrow> Inl e | Inr strs \<Rightarrow> Inr (join strs sep))"

text \<open>
  The values that ToString converts: those in which no object that the conversion
  reaches has an own property \<open>toString\<close>.
\<close>

fun printable :: "jsval \<Rightarrow> bool" where
  "printable (JArr vs) = list_all printable vs"
| "printable (JObj ps) = (ascii ''toString'' \<notin> set (map fst ps))"
| "printable v = True"

text \<open>A list of conversions made from the left; the first that raises ends them.\<close>

fun mapE :: "('a \<Rightarrow> jserror + 'b) \<Rightarrow> 'a list \<Rightarrow> jserror + 'b list" where
  "mapE f [] = Inr []"
| "mapE f (x # xs) =
     (case f x of
        Inl e \<Rightarrow> Inl e
      | Inr y \<Rightarrow> (case mapE f xs of Inl e \<Rightarrow> Inl e | Inr ys \<Rightarrow> Inr (y # ys)))"

text \<open>
  The own enumerable properties that \<open>for (param in v)\<close> visits and
  \<open>hasOwnProperty\<close> accepts: none for \<open>undefined\<close>, \<open>null\<close>, booleans and numbers,
  the indices for a string and an array, the properties of an object.
\<close>

definition indexKeys :: "nat \<Rightarrow> jsstring list" where
  "indexKeys n = map decimal [0..<n]"

fun ownProperties :: "jsval \<Rightarrow> (jsstring \<times> jsval) list" where
  "ownProperties (JStr s) = zip (indexKeys (length s)) (map (\<lambda>c. JStr [c]) s)"
| "ownProperties (JArr vs) = zip (indexKeys (length vs)) vs"
| "ownProperties (JObj ps) = ps"
| "ownProperties v = []"

section \<open>The query string builder\<close>

text \<open>
  The text that one accepted parameter adds to the URL (the body of the inner
  conditional of \<open>addParams\<close>); the conversion of the value may raise.
\<close>

definition paramSegment :: "jsstring \<Rightarrow> jsval \<Rightarrow> jserror + jsstring" where
  "paramSegment param v =
     (case v of
        JArr vs \<Rightarrow>
          (case arrayJoin vs (ascii ''&'' @ param @ ascii ''='') of
             Inl e \<Rightarrow> Inl e
           | Inr joined \<Rightarrow> Inr (param @ ascii ''='' @ joined @ ascii ''&''))
      | _ \<Rightarrow>
          (case toString v of
             Inl e \<Rightarrow> Inl e
           | Inr s \<Rightarrow> Inr (param @ ascii ''='' @ s @ ascii ''&'')))"

text \<open>
  The \<open>for ... in\<close> loop of \<open>addParams\<close>, over the properties still to visit; an
  exception ends it.
\<close>

fun addParamsLoop :: "jsstring \<Rightarrow> (jsstring \<times> jsval) list \<Rightarrow> jserror + jsstring" where
  "addParamsLoop queryUrl [] = Inr queryUrl"
| "addParamsLoop queryUrl ((param, v) # rest) =
     (if truthy v then
        (case paramSegment param v of
           Inl e \<Rightarrow> Inl e
         | Inr segment \<Rightarrow> addParamsLoop (queryUrl @ segment) rest)
      else addParamsLoop queryUrl rest)"

definition addParams :: "jsstring \<Rightarrow> jsval \<Rightarrow> jserror + jsstring" where
  "addParams url parameters = addParamsLoop (url @ ascii ''?'') (ownProperties parameters)"

section \<open>The requester\<close>

subsection \<open>encodeURI\<close>

text \<open>
  The built-in \<open>encodeURI\<close>: a code unit of the reserved and unescaped sets and
  \<open>#\<close> is kept; any other code point is written as the percent-escaped octets of
  its UTF-8 encoding; an unpaired surrogate raises \<open>URIError\<close>.
\<close>

definition uriKept :: "16 word \<Rightarrow> bool" where
  "uriKept c \<longleftrightarrow>
     (0x41 \<le> c \<and> c \<le> 0x5A) \<or> (0x61 \<le> c \<and> c \<le> 0x7A) \<or> (0x30 \<le> c \<and> c \<le> 0x39)
     \<or> c \<in> set (ascii '';/?:@&=+$,-_.!~*'()#'')"

definition hexDigit :: "nat \<Rightarrow> 16 word" where
  "hexDigit n = (if n < 10 then of_nat (48 + n) else of_nat (55 + n))"

definition percent :: "nat \<Rightarrow> jsstring" where
  "percent octet = [0x25, hexDigit (octet div 16), hexDigit (octet mod 16)]"

definition utf8 :: "nat \<Rightarrow> nat list" where
  "utf8 cp =
     (if cp < 0x80 then [cp]
      else if cp < 0x800 then [0xC0 + cp div 64, 0x80 + cp mod 64]
      else if cp < 0x10000 then
        [0xE0 + cp div 4096, 0x80 + (cp div 64) mod 64, 0x80 + cp mod 64]
      else
        [0xF0 + cp div 262144, 0x80 + (cp div 4096) mod 64,
         0x80 + (cp div 64) mod 64, 0x80 + cp mod 64])"

definition escape :: "nat \<Rightarrow> jsstring" where
  "escape cp = concat (map percent (utf8 cp))"

definition isLeadSurrogate :: "16 word \<Rightarrow> bool" where
  "isLeadSurrogate c \<longleftrightarrow> 0xD800 \<le> c \<and> c \<le> 0xDBFF"

definition isTrailSurrogate :: "16 word \<Rightarrow> bool" where
  "isTrailSurrogate c \<longleftrightarrow> 0xDC00 \<le> c \<and> c \<le> 0xDFFF"

definition pairCodePoint :: "16 word \<Rightarrow> 16 word \<Rightarrow> nat" where
  "pairCodePoint lead trail = 0x10000 + (unat lead - 0xD800) * 0x400 + (unat trail - 0xDC00)"

definition prepend :: "jsstring \<Rightarrow> jserror + jsstring \<Rightarrow> jserror + jsstring" where
  "prepend s r = (case r of Inl e \<Rightarrow> Inl e | Inr t \<Rightarrow> Inr (s @ t))"

fun encodeURI :: "jsstring \<Rightarrow> jserror + jsstring" where
  "encodeURI [] = Inr []"
| "encodeURI (c # cs) =
     (if uriKept c then prepend [c] (encodeURI cs)
      else if isLeadSurrogate c then
        (case cs of
           [] \<Rightarrow> Inl URIError
         | d # ds \<Rightarrow>
             if isTrailSurrogate d then prepend (escape (pairCodePoint c d)) (encodeURI ds)
             else Inl URIError)
      else if isTrailSurrogate c then Inl URIError
      else prepend (escape (unat c)) (encodeURI cs))"

text \<open>
  A string without an unpaired surrogate: every lead is followed by a trail, and no
  trail stands alone.
\<close>

fun wellFormed :: "jsstring \<Rightarrow> bool" where
  "wellFormed [] = True"
| "wellFormed (c # cs) =
     (if isLeadSurrogate c then
        (case cs of [] \<Rightarrow> False | d # ds \<Rightarrow> isTrailSurrogate d \<and> wellFormed ds)
      else \<not> isTrailSurrogate c \<and> wellFormed cs)"

subsection \<open>generalRequest\<close>

text \<open>The options object handed to \<open>request\<close>.\<close>

record requestOptions =
  opt_method :: jsstring
  opt_uri :: jsstring
  opt_body :: jsval
  opt_json :: bool
  opt_resolveWithFullResponse :: jsval

text \<open>
  What the HTTP client does with one call: it resolves with the parsed response, or
  it fails (a transport failure, a non-2xx status, an unparsable body, or a
  synchronous exception) with an error object.
\<close>

datatype outcome = Resolves jsval | Fails jsval

text \<open>What an \<open>async\<close> function's promise settles to.\<close>

datatype settled = Fulfilled jsval | Rejected jserror

text \<open>The observable effects, in order: lines on the console and calls of the client.\<close>

datatype event = ConsoleLog jsstring | HttpRequest requestOptions

text \<open>\<open>process.env\<close>: a variable is a string or absent.\<close>

type_synonym environment = "jsstring \<rightharpoonup> jsstring"

definition envTruthy :: "environment \<Rightarrow> jsstring \<Rightarrow> bool" where
  "envTruthy env name = (case env name of None \<Rightarrow> False | Some s \<Rightarrow> s \<noteq> [])"

text \<open>
  \<open>generalRequest\<close>, over the client \<open>request\<close> and the environment. The options
  object is built first, so \<open>encodeURI\<close> runs before the log line and outside the
  \<open>try\<close> block.
\<close>

definition generalRequest ::
  "(requestOptions \<Rightarrow> outcome) \<Rightarrow> environment \<Rightarrow> jsstring \<Rightarrow> jsstring \<Rightarrow> jsval \<Rightarrow> jsval
     \<Rightarrow> event list \<Rightarrow> settled \<times> event list" where
  "generalRequest request env url meth body fullResponse trace =
     (case encodeURI url of
        Inl e \<Rightarrow> (Rejected e, trace)
      | Inr uri \<Rightarrow>
          let parameters = \<lparr>opt_method = meth, opt_uri = uri, opt_body = body,
                 opt_json = True, opt_resolveWithFullResponse = fullResponse\<rparr>;
              logged = (if envTruthy env (ascii ''SHOW_URLS'')
                        then trace @ [ConsoleLog url] else trace);
              called = logged @ [HttpRequest parameters]
          in (case request parameters of
                Resolves response \<Rightarrow> (Fulfilled response, called)
              | Fails err \<Rightarrow> (Fulfilled err, called)))"

text \<open>
  \<open>getRequest\<close> builds the URL before it calls \<open>generalRequest\<close>: when \<open>addParams\<close>
  raises, the exception leaves \<open>getRequest\<close> and nothing is logged or requested.
\<close>

definition getRequest ::
  "(requestOptions \<Rightarrow> outcome) \<Rightarrow> environment \<Rightarrow> jsstring \<Rightarrow> jsstring \<Rightarrow> jsval
     \<Rightarrow> event list \<Rightarrow> jserror + settled \<times> event list" where
  "getRequest request env url path parameters trace =
     (case addParams (url @ ascii ''/'' @ path) parameters of
        Inl e \<Rightarrow> Inl e
      | Inr queryUrl \<Rightarrow>
          Inr (generalRequest request env queryUrl (ascii ''GET'') JUndefined JUndefined trace))"

section \<open>The resolvers\<close>

text \<open>A variable of the environment inside a template literal: absent prints as \<open>undefined\<close>.\<close>

definition envString :: "environment \<Rightarrow> jsstring \<Rightarrow> jsstring" where
  "envString env name = (case env name of None \<Rightarrow> ascii ''undefined'' | Some s \<Rightarrow> s)"

definition coursesURL :: "environment \<Rightarrow> jsstring" where
  "coursesURL env =
     ascii ''http://'' @ envString env (ascii ''COURSES_URL'') @ ascii '':''
       @ envString env (ascii ''COURSES_PORT'') @ ascii ''/''
       @ envString env (ascii ''COURSES_ENTRY'')"

definition studentsURL :: "environment \<Rightarrow> jsstring" where
  "studentsURL env =
     ascii ''http://'' @ envString env (ascii ''STUDENTS_URL'') @ ascii '':''
       @ envString env (ascii ''STUDENTS_PORT'') @ ascii ''/''
       @ envString env (ascii ''STUDENTS_ENTRY'')"

text \<open>
  The second parameter of a resolver is the object of the field's arguments; the
  pattern \<open>{ code }\<close> reads its property \<open>code\<close>, \<open>undefined\<close> when it has none.
\<close>

type_synonym arguments = "(jsstring \<times> jsval) list"

definition arg :: "arguments \<Rightarrow> jsstring \<Rightarrow> jsval" where
  "arg args name = (case map_of args name of None \<Rightarrow> JUndefined | Some v \<Rightarrow> v)"

text \<open>
  A resolver returns the promise of \<open>generalRequest\<close> (with the effects of the call),
  or raises while it builds the URL, before anything is logged or requested.
\<close>

type_synonym resolver =
  "(requestOptions \<Rightarrow> outcome) \<Rightarrow> environment \<Rightarrow> arguments \<Rightarrow> event list
     \<Rightarrow> jserror + settled \<times> event list"

text \<open>The URL \<open>`${URL}/${code}`\<close> of the resolvers that take a code.\<close>

definition codeURL :: "jsstring \<Rightarrow> jsval \<Rightarrow> jserror + jsstring" where
  "codeURL base code =
     (case toString code of Inl e \<Rightarrow> Inl e | Inr c \<Rightarrow> Inr (base @ ascii ''/'' @ c))"

text \<open>The list resolvers pass the empty path and no parameters.\<close>

definition allCourses :: resolver where
  "allCourses request env args trace =
     getRequest request env (coursesURL env) [] JUndefined trace"

definition courseByCode :: resolver where
  "courseByCode request env args trace =
     (case codeURL (coursesURL env) (arg args (ascii ''code'')) of
        Inl e \<Rightarrow> Inl e
      | Inr url \<Rightarrow>
          Inr (generalRequest request env url (ascii ''GET'') JUndefined JUndefined trace))"

definition createCourse :: resolver where
  "createCourse request env args trace =
     Inr (generalRequest request env (coursesURL env)
            (ascii ''POST'') (arg args (ascii ''course'')) JUndefined trace)"

definition updateCourse :: resolver where
  "updateCourse request env args trace =
     (case codeURL (coursesURL env) (arg args (ascii ''code'')) of
        Inl e \<Rightarrow> Inl e
      | Inr url \<Rightarrow>
          Inr (generalRequest request env url
                 (ascii ''PUT'') (arg args (ascii ''course'')) JUndefined trace))"

definition deleteCourse :: resolver where
  "deleteCourse request env args trace =
     (case codeURL (coursesURL env) (arg args (ascii ''code'')) of
        Inl e \<Rightarrow> Inl e
      | Inr url \<Rightarrow>
          Inr (generalRequest request env url (ascii ''DELETE'') JUndefined JUndefined trace))"

definition allStudents :: resolver where
  "allStudents request env args trace =
     getRequest request env (studentsURL env) [] JUndefined trace"

definition studentByCode :: resolver where
  "studentByCode request env args trace =
     (case codeURL (studentsURL env) (arg args (ascii ''code'')) of
        Inl e \<Rightarrow> Inl e
      | Inr url \<Rightarrow>
          Inr (generalRequest request env url (ascii ''GET'') JUndefined JUndefined trace))"

definition createStudent :: resolver where
  "createStudent request env args trace =
     Inr (generalRequest request env (studentsURL env)
            (ascii ''POST'') (arg args (ascii ''course'')) JUndefined trace)"

definition updateStudent :: resolver where
  "updateStudent request env args trace =
     (case codeURL (studentsURL env) (arg args (ascii ''code'')) of
        Inl e \<Rightarrow> Inl e
      | Inr url \<Rightarrow>
          Inr (generalRequest request env url
                 (ascii ''PUT'') (arg args (ascii ''course'')) JUndefined trace))"

definition deleteStudent :: resolver where
  "deleteStudent request env args trace =
     (case codeURL (studentsURL env) (arg args (ascii ''code'')) of
        Inl e \<Rightarrow> Inl e
      | Inr url \<Rightarrow>
          Inr (generalRequest request env url (ascii ''DELETE'') JUndefined JUndefined trace))"

section \<open>The schema text\<close>

definition mergeSchemas :: "jsstring list \<Rightarrow> jsstring list \<Rightarrow> jsstring list \<Rightarrow> jsstring" where
  "mergeSchemas typeDefs queries mutations =
     join typeDefs (ascii ''\<newline>'')
       @ ascii ''\<newline>    type Query { '' @ join queries (ascii ''\<newline>'')
       @ ascii '' }\<newline>    type Mutation { '' @ join mutations (ascii ''\<newline>'')
       @ ascii '' }''"

text \<open>
  A call of \<open>mergeSchemas\<close> with a list of arguments: the three parameters take the
  first three, further arguments are bound to nothing, and a parameter left without
  an argument is \<open>undefined\<close>, on which \<open>.join\<close> raises \<open>TypeError\<close>.
\<close>

fun callMergeSchemas :: "jsstring list list \<Rightarrow> jserror + jsstring" where
  "callMergeSchemas (typeDefs # queries # mutations # surplus) =
     Inr (mergeSchemas typeDefs queries mutations)"
| "callMergeSchemas _ = Inl TypeError"

definition coursesTypeDef :: jsstring where
  "coursesTypeDef = ascii
     ''\<newline>type Course {\<newline>    code: Int!\<newline>    name: String!\<newline>    credits: Int!\<newline>    professor: String!\<newline>}\<newline>input CourseInput {\<newline>    name: String!\<newline>    credits: Int!\<newline>    professor: String!\<newline>}''"

definition coursesQueries :: jsstring where
  "coursesQueries = ascii
     ''\<newline>    allCourses: [Course]!\<newline>    courseByCode(code: Int!): Course!\<newline>''"

definition coursesMutations :: jsstring where
  "coursesMutations = ascii
     ''\<newline>    createCourse(course: CourseInput!): Course!\<newline>    deleteCourse(code: Int!): Int\<newline>    updateCourse(code: Int!, course: CourseInput!): Course!\<newline>''"

definition studentsTypeDef :: jsstring where
  "studentsTypeDef = ascii
     ''\<newline>type Student {\<newline>    code: Int!\<newline>    username: String!\<newline>    password: String!\<newline>}\<newline>input StudentInput {\<newline>    username: String!\<newline>    password: String!\<newline>}\<newline>''"

definition studentsQueries :: jsstring where
  "studentsQueries = ascii
     ''\<newline>    allStudents: [Student]!\<newline>    studentByCode(code: Int!): Student!\<newline>''"

definition studentsMutations :: jsstring where
  "studentsMutations = ascii
     ''\<newline>    createStudent(student: StudentInput!): Student!\<newline>    deleteStudent(code: Int!): Int\<newline>    updateStudent(code: Int!, student: StudentInput!): Student!\<newline>''"

text \<open>The call at start-up passes six arrays.\<close>

definition mergedTypeDefs :: "jserror + jsstring" where
  "mergedTypeDefs =
     callMergeSchemas
       [[ascii ''scalar JSON'', coursesTypeDef], [coursesQueries], [coursesMutations],
        [ascii ''scalar JSON'', studentsTypeDef], [studentsQueries], [studentsMutations]]"

text \<open>Reading a schema text back: where a piece of text occurs in it, and how often.\<close>

fun startsWith :: "'a list \<Rightarrow> 'a list \<Rightarrow> bool" where
  "startsWith s [] = True"
| "startsWith [] (p # ps) = False"
| "startsWith (c # cs) (p # ps) = (c = p \<and> startsWith cs ps)"

fun occurrences :: "'a list \<Rightarrow> 'a list \<Rightarrow> nat" where
  "occurrences [] p = (if p = [] then 1 else 0)"
| "occurrences (c # cs) p = (if startsWith (c # cs) p then 1 else 0) + occurrences cs p"

definition mentions :: "jsstring \<Rightarrow> string \<Rightarrow> bool" where
  "mentions s name \<longleftrightarrow> 0 < occurrences s (ascii name)"

section \<open>The error normalizer\<close>

text \<open>
  Reading a property, also through a destructuring pattern: \<open>TypeError\<close> on
  \<open>undefined\<close> and \<open>null\<close>; otherwise the own property of that name, or
  \<open>undefined\<close>. The names read here (\<open>originalError\<close>, \<open>error\<close>, \<open>path\<close>, \<open>id\<close>,
  \<open>code\<close>, \<open>description\<close>) are defined by no built-in prototype. A string and an
  array have the own property \<open>length\<close>, which is below \<open>2^53\<close>.
\<close>

definition getProp :: "jsval \<Rightarrow> jsstring \<Rightarrow> jserror + jsval" where
  "getProp v name =
     (if v = JUndefined \<or> v = JNull then Inl TypeError
      else case map_of (ownProperties v) name of
             Some x \<Rightarrow> Inr x
           | None \<Rightarrow>
               if name = ascii ''length'' then
                 (case v of JStr s \<Rightarrow> Inr (JNum (of_nat (length s)))
                  | JArr vs \<Rightarrow> Inr (JNum (of_nat (length vs)))
                  | _ \<Rightarrow> Inr JUndefined)
               else Inr JUndefined)"

definition bindE :: "jserror + 'a \<Rightarrow> ('a \<Rightarrow> jserror + 'b) \<Rightarrow> jserror + 'b" where
  "bindE r f = (case r of Inl e \<Rightarrow> Inl e | Inr x \<Rightarrow> f x)"

text \<open>
  \<open>formatErr\<close>, over the engine's \<open>graphql.formatError\<close>. The test
  \<open>originalError && originalError.error\<close> reads \<open>error\<close> only from a truthy
  \<open>originalError\<close>.
\<close>

definition formatErr :: "(jsval \<Rightarrow> jserror + jsval) \<Rightarrow> jsval \<Rightarrow> jserror + jsval" where
  "formatErr formatError error =
     bindE (formatError error) (\<lambda>data.
     bindE (getProp error (ascii ''originalError'')) (\<lambda>originalError.
     bindE (if truthy originalError
            then bindE (getProp originalError (ascii ''error'')) (\<lambda>nested. Inr (truthy nested))
            else Inr False) (\<lambda>structured.
       if structured then
         bindE (getProp data (ascii ''path'')) (\<lambda>path.
         bindE (getProp originalError (ascii ''error'')) (\<lambda>nested.
         bindE (getProp nested (ascii ''id'')) (\<lambda>message.
         bindE (getProp nested (ascii ''code'')) (\<lambda>code.
         bindE (getProp nested (ascii ''description'')) (\<lambda>description.
           Inr (JObj [(ascii ''message'', message), (ascii ''code'', code),
                      (ascii ''description'', description), (ascii ''path'', path)]))))))
       else Inr data)))"

text \<open>The value a property read gives where it does not raise.\<close>

definition propertyOf :: "jsval \<Rightarrow> jsstring \<Rightarrow> jsval" where
  "propertyOf v name = (case getProp v name of Inl e \<Rightarrow> JUndefined | Inr x \<Rightarrow> x)"

definition hasOwn :: "jsval \<Rightarrow> jsstring \<Rightarrow> bool" where
  "hasOwn v name \<longleftrightarrow> map_of (ownProperties v) name \<noteq> None"

text \<open>
  The specification's condition on an execution error: it carries an original error
  whose truthy nested \<open>error\<close> object has the fields \<open>id\<close>, \<open>code\<close> and \<open>description\<close>.
\<close>

definition specStructured :: "jsval \<Rightarrow> bool" where
  "specStructured error \<longleftrightarrow>
     truthy (propertyOf error (ascii ''originalError''))
     \<and> truthy (propertyOf (propertyOf error (ascii ''originalError'')) (ascii ''error''))
     \<and> hasOwn (propertyOf (propertyOf error (ascii ''originalError'')) (ascii ''error'')) (ascii ''id'')
     \<and> hasOwn (propertyOf (propertyOf error (ascii ''originalError'')) (ascii ''error'')) (ascii ''code'')
     \<and> hasOwn (propertyOf (propertyOf error (ascii ''originalError'')) (ascii ''error''))
          (ascii ''description'')"

section \<open>The credential middleware\<close>

definition isAlnum :: "16 word \<Rightarrow> bool" where
  "isAlnum c \<longleftrightarrow>
     (0x41 \<le> c \<and> c \<le> 0x5A) \<or> (0x61 \<le> c \<and> c \<le> 0x7A) \<or> (0x30 \<le> c \<and> c \<le> 0x39)"

fun stripPrefix :: "jsstring \<Rightarrow> jsstring \<Rightarrow> jsstring option" where
  "stripPrefix [] s = Some s"
| "stripPrefix (p # ps) [] = None"
| "stripPrefix (p # ps) (c # cs) = (if p = c then stripPrefix ps cs else None)"

text \<open>
  The pattern \<open>/Bearer ([A-Za-z0-9]+)/\<close> tried at the start of a string: the group is
  the longest run of alphanumerics after the literal, and needs one at least.
\<close>

definition matchHere :: "jsstring \<Rightarrow> jsstring option" where
  "matchHere s =
     (case stripPrefix (ascii ''Bearer '') s of
        None \<Rightarrow> None
      | Some rest \<Rightarrow>
          let run = takeWhile isAlnum rest in if run = [] then None else Some run)"

text \<open>\<open>header.match(pattern)\<close>: the leftmost position where the pattern matches; its group.\<close>

fun bearerMatch :: "jsstring \<Rightarrow> jsstring option" where
  "bearerMatch [] = None"
| "bearerMatch (c # cs) =
     (case matchHere (c # cs) of Some g \<Rightarrow> Some g | None \<Rightarrow> bearerMatch cs)"

text \<open>
  What the middleware reads and writes of Koa's context: the \<open>authorization\<close> header
  (absent is \<open>undefined\<close>) and \<open>state.token\<close>.
\<close>

record koaContext =
  header_authorization :: "jsstring option"
  state_token :: jsval

definition tokenMiddleware :: "koaContext \<Rightarrow> koaContext" where
  "tokenMiddleware ctx =
     (case header_authorization ctx of
        None \<Rightarrow> ctx
      | Some authorization \<Rightarrow>
          if authorization \<noteq> [] then
            (case bearerMatch authorization of
               None \<Rightarrow> ctx
             | Some group1 \<Rightarrow>
                 if group1 \<noteq> [] then ctx\<lparr>state_token := JStr group1\<rparr> else ctx)
          else ctx)"

text \<open>Koa starts every request with an empty \<open>state\<close> object.\<close>

definition freshContext :: "jsstring option \<Rightarrow> koaContext" where
  "freshContext authorization =
     \<lparr>header_authorization = authorization, state_token = JUndefined\<rparr>"

text \<open>The \<open>token\<close> of the resolver context that \<open>graphqlKoa\<close> is given for a request.\<close>

definition contextToken :: "jsstring option \<Rightarrow> jsval" where
  "contextToken authorization = state_token (tokenMiddleware (freshContext authorization))"

section \<open>Properties of the query string builder\<close>

text \<open>ToString returns exactly on the printable values.\<close>

lemma printable_iff:
  "(\<exists>s. toString v = Inr s) \<longleftrightarrow> printable v"
  "(\<exists>strs. elementStrings vs = Inr strs) \<longleftrightarrow> list_all printable vs"
  by (induction v and vs rule: toString_elementStrings.induct)
    (auto split: sum.splits)

lemma elementStrings_mapE: "elementStrings vs = mapE elemToString vs"
  by (induction vs) (auto simp: elemToString_def split: sum.splits)

lemma mapE_returns: "(\<exists>ys. mapE f xs = Inr ys) \<longleftrightarrow> (\<forall>x\<in>set xs. \<exists>y. f x = Inr y)"
  by (induction xs) (auto split: sum.splits)

lemma paramSegment_returns: "(\<exists>segment. paramSegment k v = Inr segment) \<longleftrightarrow> printable v"
proof (cases v)
  case (JArr vs)
  then show ?thesis
    using printable_iff(2) [of vs]
    by (auto simp: paramSegment_def arrayJoin_def split: sum.splits)
next
  case (JObj ps)
  then show ?thesis
    using printable_iff(1) [of v] by (auto simp: paramSegment_def split: sum.splits)
qed (simp_all add: paramSegment_def)

lemma addParamsLoop_filter:
  "addParamsLoop q ps =
     (case mapE (\<lambda>(k, v). paramSegment k v) (filter (\<lambda>(k, v). truthy v) ps) of
        Inl e \<Rightarrow> Inl e
      | Inr segments \<Rightarrow> Inr (q @ concat segments))"
  by (induction q ps rule: addParamsLoop.induct) (auto split: sum.splits)

lemma join_segments:
  "xs \<noteq> [] \<Longrightarrow> k @ e @ join xs (a @ k @ e) @ a = concat (map (\<lambda>x. k @ e @ x @ a) xs)"
  by (induction xs "a @ k @ e" rule: join.induct) auto

lemma paramSegment_array:
  "paramSegment k (JArr vs) =
     (case elementStrings vs of
        Inl e \<Rightarrow> Inl e
      | Inr strs \<Rightarrow>
          Inr (if strs = [] then k @ ascii ''=&''
               else concat (map (\<lambda>s. k @ ascii ''='' @ s @ ascii ''&'') strs)))"
proof (cases "elementStrings vs")
  case (Inl e)
  then show ?thesis by (simp add: paramSegment_def arrayJoin_def)
next
  case (Inr strs)
  show ?thesis
  proof (cases "strs = []")
    case True
    then show ?thesis using Inr by (simp add: paramSegment_def arrayJoin_def ascii_def)
  next
    case False
    then show ?thesis
      using Inr join_segments [of strs k "ascii ''=''" "ascii ''&''"]
      by (simp add: paramSegment_def arrayJoin_def)
  qed
qed

lemma paramSegment_last:
  "paramSegment k v = Inr segment \<Longrightarrow> segment \<noteq> [] \<and> last segment = 0x26"
  by (cases v) (auto simp: paramSegment_def ascii_def split: sum.splits)

lemma addParamsLoop_last:
  "addParamsLoop q ps = Inr r \<Longrightarrow> q \<noteq> [] \<Longrightarrow> last q \<in> {0x3F, 0x26} \<Longrightarrow>
     r \<noteq> [] \<and> last r \<in> {0x3F, 0x26}"
proof (induction q ps rule: addParamsLoop.induct)
  case (1 queryUrl)
  then show ?case by simp
next
  case (2 queryUrl param v rest)
  show ?case
  proof (cases "truthy v")
    case True
    with "2.prems"(1) obtain segment where segment: "paramSegment param v = Inr segment"
      and loop: "addParamsLoop (queryUrl @ segment) rest = Inr r"
      by (auto split: sum.splits)
    have "queryUrl @ segment \<noteq> []" using "2.prems"(2) by simp
    moreover have "last (queryUrl @ segment) \<in> {0x3F, 0x26}"
      using paramSegment_last [OF segment] by simp
    ultimately show ?thesis using "2.IH"(1) [OF True segment loop] by blast
  next
    case False
    then show ?thesis using 2 by simp
  qed
qed

lemma addParams_last:
  "addParams url p = Inr q \<Longrightarrow> q \<noteq> [] \<and> last q \<in> {0x3F, 0x26}"
  unfolding addParams_def
  by (erule addParamsLoop_last) (simp_all add: ascii_def)

lemma addParams_returns:
  "(\<exists>q. addParams url p = Inr q)
     \<longleftrightarrow> (\<forall>(k, v)\<in>set (ownProperties p). truthy v \<longrightarrow> printable v)"
proof -
  have "(\<exists>q. addParams url p = Inr q)
      \<longleftrightarrow> (\<exists>segments. mapE (\<lambda>(k, v). paramSegment k v)
              (filter (\<lambda>(k, v). truthy v) (ownProperties p)) = Inr segments)"
    by (auto simp: addParams_def addParamsLoop_filter split: sum.splits)
  also have "\<dots> \<longleftrightarrow> (\<forall>x\<in>set (filter (\<lambda>(k, v). truthy v) (ownProperties p)).
      \<exists>segment. (\<lambda>(k, v). paramSegment k v) x = Inr segment)"
    by (rule mapE_returns)
  also have "\<dots> \<longleftrightarrow> (\<forall>(k, v)\<in>set (ownProperties p). truthy v \<longrightarrow> printable v)"
    using paramSegment_returns by auto
  finally show ?thesis .
qed

text \<open>
  Claim C4, as stated: \<open>addParams\<close> always yields a URL. It does not when the value of
  a parameter is a plain object with an own property \<open>toString\<close>: the value is truthy
  and no array, the template literal converts it to a string, and that conversion
  raises \<open>TypeError\<close>. So \<open>addParams(url, {o: {toString: 1}})\<close> yields no URL.
\<close>

theorem addParams_raises_on_own_toString:
  "addParams (ascii ''http://h/c'') (JObj [(ascii ''o'', JObj [(ascii ''toString'', JNum 1)])])
     = Inl TypeError"
  by (simp add: addParams_def paramSegment_def)

text \<open>
  Claim C4, amended. \<open>addParams\<close> on an object appends, after \<open>url?\<close>, the segments of
  exactly the properties whose value is truthy, in the order of the properties (and
  raises where the first of these segments does). The segment of an array is one
  \<open>key=element&\<close> for each element, in the order of the array, where the elements
  are converted as \<open>join\<close> converts them (an empty array, which is truthy, gives the
  single segment \<open>key=&\<close>). Whenever \<open>addParams\<close> yields a URL, the URL is not empty and
  ends in \<open>?\<close> or \<open>&\<close>; it yields one exactly when every truthy value among the
  parameters is printable, that is, when the conversion reaches no object with an own
  property \<open>toString\<close>. With no properties the result is \<open>url?\<close>, and
  \<open>addParams(url, {a:["x","y"], b:0, c:null, d:"z"})\<close> is \<open>url?a=x&a=y&d=z&\<close>.
\<close>

theorem addParams_query_string:
  "addParams url (JObj ps) =
     (case mapE (\<lambda>(k, v). paramSegment k v) (filter (\<lambda>(k, v). truthy v) ps) of
        Inl e \<Rightarrow> Inl e
      | Inr segments \<Rightarrow> Inr (url @ ascii ''?'' @ concat segments))
   \<and> paramSegment k (JArr vs) =
       (case mapE elemToString vs of
          Inl e \<Rightarrow> Inl e
        | Inr strs \<Rightarrow>
            Inr (if strs = [] then k @ ascii ''=&''
                 else concat (map (\<lambda>s. k @ ascii ''='' @ s @ ascii ''&'') strs)))
   \<and> (addParams url p = Inr q \<longrightarrow> q \<noteq> [] \<and> last q \<in> set (ascii ''?&''))
   \<and> ((\<exists>r. addParams url p = Inr r)
        \<longleftrightarrow> (\<forall>(k, v)\<in>set (ownProperties p). truthy v \<longrightarrow> printable v))
   \<and> addParams url (JObj []) = Inr (url @ ascii ''?'')
   \<and> addParams url
         (JObj [(ascii ''a'', JArr [JStr (ascii ''x''), JStr (ascii ''y'')]),
                (ascii ''b'', JNum 0), (ascii ''c'', JNull), (ascii ''d'', JStr (ascii ''z''))])
       = Inr (url @ ascii ''?a=x&a=y&d=z&'')"
proof -
  have filtered: "addParams url (JObj ps) =
     (case mapE (\<lambda>(k, v). paramSegment k v) (filter (\<lambda>(k, v). truthy v) ps) of
        Inl e \<Rightarrow> Inl e
      | Inr segments \<Rightarrow> Inr (url @ ascii ''?'' @ concat segments))"
    by (simp add: addParams_def addParamsLoop_filter split: sum.splits)
  have expanded: "paramSegment k (JArr vs) =
       (case mapE elemToString vs of
          Inl e \<Rightarrow> Inl e
        | Inr strs \<Rightarrow>
            Inr (if strs = [] then k @ ascii ''=&''
                 else concat (map (\<lambda>s. k @ ascii ''='' @ s @ ascii ''&'') strs)))"
    using paramSegment_array [of k vs] by (simp only: elementStrings_mapE)
  have ending: "addParams url p = Inr q \<longrightarrow> q \<noteq> [] \<and> last q \<in> set (ascii ''?&'')"
    using addParams_last [of url p q] by (simp add: ascii_def)
  have returns: "(\<exists>r. addParams url p = Inr r)
        \<longleftrightarrow> (\<forall>(k, v)\<in>set (ownProperties p). truthy v \<longrightarrow> printable v)"
    by (rule addParams_returns)
  have none: "addParams url (JObj []) = Inr (url @ ascii ''?'')"
    by (simp add: addParams_def)
  have example: "addParams url
         (JObj [(ascii ''a'', JArr [JStr (ascii ''x''), JStr (ascii ''y'')]),
                (ascii ''b'', JNum 0), (ascii ''c'', JNull), (ascii ''d'', JStr (ascii ''z''))])
       = Inr (url @ ascii ''?a=x&a=y&d=z&'')"
    by (simp add: addParams_def paramSegment_def arrayJoin_def ascii_def)
  from filtered expanded ending returns none example show ?thesis by blast
qed

theorem addParams_query_string_witness:
  "printable (JArr [JNum 1, JNull, JStr (ascii ''v'')])
   \<and> \<not> truthy (JStr [])
   \<and> addParams (ascii ''http://h/c'')
        (JObj [(ascii ''k'', JArr [JNum 1, JNull, JStr (ascii ''v'')]), (ascii ''e'', JStr [])])
       = Inr (ascii ''http://h/c?k=1&k=&k=v&'')
   \<and> last (ascii ''http://h/c?k=1&k=&k=v&'') \<in> set (ascii ''?&'')"
proof -
  let ?p = "JObj [(ascii ''k'', JArr [JNum 1, JNull, JStr (ascii ''v'')]), (ascii ''e'', JStr [])]"
  have inputs: "printable (JArr [JNum 1, JNull, JStr (ascii ''v'')])" "\<not> truthy (JStr [])"
    by simp_all
  then have printable: "\<forall>(k, v)\<in>set (ownProperties ?p). truthy v \<longrightarrow> printable v"
    by simp
  note claim = addParams_query_string
    [where url = "ascii ''http://h/c''" and p = ?p and q = "ascii ''http://h/c?k=1&k=&k=v&''"
       and ps = "[]" and k = "ascii ''k''" and vs = "[JNum 1, JNull, JStr (ascii ''v'')]"]
  from claim printable obtain r where yields: "addParams (ascii ''http://h/c'') ?p = Inr r"
    by blast
  have result: "addParams (ascii ''http://h/c'') ?p = Inr (ascii ''http://h/c?k=1&k=&k=v&'')"
    by (simp add: addParams_def paramSegment_def arrayJoin_def numToString_def decimal.simps
          ascii_def)
  from claim result
  have "last (ascii ''http://h/c?k=1&k=&k=v&'') \<in> set (ascii ''?&'')"
    by blast
  with inputs result show ?thesis by blast
qed

section \<open>Properties of the requester\<close>

lemma uriKept_ascii: "uriKept c \<Longrightarrow> c < 0x80"
  unfolding uriKept_def ascii_def by (auto simp: word_le_nat_alt word_less_nat_alt)

lemma uriKept_not_surrogate: "uriKept c \<Longrightarrow> \<not> isLeadSurrogate c \<and> \<not> isTrailSurrogate c"
  using uriKept_ascii [of c] unfolding isLeadSurrogate_def isTrailSurrogate_def
  by (auto simp: word_le_nat_alt word_less_nat_alt)

lemma encodeURI_kept: "list_all uriKept url \<Longrightarrow> encodeURI url = Inr url"
  by (induction url) (auto simp: prepend_def)

text \<open>\<open>encodeURI\<close> returns exactly on the strings without an unpaired surrogate.\<close>

lemma encodeURI_wellFormed: "(\<exists>uri. encodeURI url = Inr uri) \<longleftrightarrow> wellFormed url"
proof (induction url rule: encodeURI.induct)
  case 1
  then show ?case by simp
next
  case (2 c cs)
  show ?case
  proof (cases "uriKept c")
    case True
    then show ?thesis using 2 uriKept_not_surrogate [of c]
      by (auto simp: prepend_def split: sum.splits)
  next
    case notKept: False
    show ?thesis
    proof (cases "isLeadSurrogate c")
      case True
      then show ?thesis using 2 notKept
        by (cases cs) (auto simp: prepend_def split: sum.splits)
    next
      case False
      then show ?thesis using 2 notKept
        by (auto simp: prepend_def split: sum.splits)
    qed
  qed
qed

lemma encodeURI_space: "encodeURI (ascii ''a b'') = Inr (ascii ''a%20b'')"
  by (simp add: ascii_def uriKept_def prepend_def escape_def utf8_def percent_def hexDigit_def
        isLeadSurrogate_def isTrailSurrogate_def)

lemma generalRequest_fst:
  "encodeURI url = Inr uri \<Longrightarrow>
     fst (generalRequest request env url meth body full trace) =
       Fulfilled (case request \<lparr>opt_method = meth, opt_uri = uri, opt_body = body,
                     opt_json = True, opt_resolveWithFullResponse = full\<rparr> of
                    Resolves response \<Rightarrow> response | Fails err \<Rightarrow> err)"
  by (simp add: generalRequest_def Let_def split: outcome.splits)

lemma generalRequest_snd:
  "encodeURI url = Inr uri \<Longrightarrow>
     snd (generalRequest request env url meth body full trace) =
       trace @ (if envTruthy env (ascii ''SHOW_URLS'') then [ConsoleLog url] else [])
         @ [HttpRequest \<lparr>opt_method = meth, opt_uri = uri, opt_body = body,
                     opt_json = True, opt_resolveWithFullResponse = full\<rparr>]"
  by (simp add: generalRequest_def Let_def split: outcome.splits)

text \<open>
  Claim C9. With \<open>undefined\<close> for the parameters, \<open>addParams\<close> visits no property and
  returns the path followed by one \<open>?\<close>; it does not raise. The list resolvers
  therefore call \<open>generalRequest\<close> with the URL \<open>{baseUrl}/?\<close> and the method \<open>GET\<close>; for
  a base URL of characters that \<open>encodeURI\<close> keeps, the call returns and the request
  it issues is a \<open>GET\<close> of \<open>{baseUrl}/?\<close>.
\<close>

theorem list_resolvers_without_parameters:
  "addParams url JUndefined = Inr (url @ ascii ''?'')
   \<and> allCourses request env args trace =
       Inr (generalRequest request env (coursesURL env @ ascii ''/?'') (ascii ''GET'')
              JUndefined JUndefined trace)
   \<and> allStudents request env args trace =
       Inr (generalRequest request env (studentsURL env @ ascii ''/?'') (ascii ''GET'')
              JUndefined JUndefined trace)
   \<and> (list_all uriKept (coursesURL env) \<longrightarrow>
        (\<exists>result events.
           allCourses request env args trace = Inr (Fulfilled result, events)
           \<and> last events =
               HttpRequest \<lparr>opt_method = ascii ''GET'', opt_uri = coursesURL env @ ascii ''/?'',
                 opt_body = JUndefined, opt_json = True,
                 opt_resolveWithFullResponse = JUndefined\<rparr>))"
proof -
  have absent: "addParams url JUndefined = Inr (url @ ascii ''?'')" for url
    by (simp add: addParams_def)
  have courses: "allCourses request env args trace =
       Inr (generalRequest request env (coursesURL env @ ascii ''/?'') (ascii ''GET'')
              JUndefined JUndefined trace)"
    by (simp add: allCourses_def getRequest_def absent) (simp add: ascii_def)
  have students: "allStudents request env args trace =
       Inr (generalRequest request env (studentsURL env @ ascii ''/?'') (ascii ''GET'')
              JUndefined JUndefined trace)"
    by (simp add: allStudents_def getRequest_def absent) (simp add: ascii_def)
  have issued: "\<exists>result events.
           allCourses request env args trace = Inr (Fulfilled result, events)
           \<and> last events =
               HttpRequest \<lparr>opt_method = ascii ''GET'', opt_uri = coursesURL env @ ascii ''/?'',
                 opt_body = JUndefined, opt_json = True,
                 opt_resolveWithFullResponse = JUndefined\<rparr>"
    if kept: "list_all uriKept (coursesURL env)"
  proof -
    let ?call = "generalRequest request env (coursesURL env @ ascii ''/?'') (ascii ''GET'')
              JUndefined JUndefined trace"
    have "list_all uriKept (coursesURL env @ ascii ''/?'')"
      using kept by (simp add: ascii_def uriKept_def)
    then have enc: "encodeURI (coursesURL env @ ascii ''/?'') = Inr (coursesURL env @ ascii ''/?'')"
      by (rule encodeURI_kept)
    obtain result where fulfilled: "fst ?call = Fulfilled result"
      using generalRequest_fst [OF enc] by blast
    have "last (snd ?call) =
        HttpRequest \<lparr>opt_method = ascii ''GET'', opt_uri = coursesURL env @ ascii ''/?'',
          opt_body = JUndefined, opt_json = True, opt_resolveWithFullResponse = JUndefined\<rparr>"
      using generalRequest_snd [OF enc] by simp
    moreover have "allCourses request env args trace = Inr (Fulfilled result, snd ?call)"
      unfolding courses using fulfilled by (cases ?call) simp
    ultimately show ?thesis by blast
  qed
  from absent courses students issued show ?thesis by blast
qed

theorem list_resolvers_without_parameters_witness:
  "list_all uriKept
     (coursesURL [ascii ''COURSES_URL'' \<mapsto> ascii ''h'', ascii ''COURSES_PORT'' \<mapsto> ascii ''80'',
                  ascii ''COURSES_ENTRY'' \<mapsto> ascii ''c''])
   \<and> allCourses (\<lambda>options. Fails (JStr (ascii ''ECONNREFUSED'')))
      [ascii ''COURSES_URL'' \<mapsto> ascii ''h'', ascii ''COURSES_PORT'' \<mapsto> ascii ''80'',
       ascii ''COURSES_ENTRY'' \<mapsto> ascii ''c''] [] []
     = Inr (Fulfilled (JStr (ascii ''ECONNREFUSED'')),
            [HttpRequest \<lparr>opt_method = ascii ''GET'', opt_uri = ascii ''http://h:80/c/?'',
               opt_body = JUndefined, opt_json = True, opt_resolveWithFullResponse = JUndefined\<rparr>])"
proof -
  let ?env = "[ascii ''COURSES_URL'' \<mapsto> ascii ''h'', ascii ''COURSES_PORT'' \<mapsto> ascii ''80'',
       ascii ''COURSES_ENTRY'' \<mapsto> ascii ''c'']"
  let ?client = "\<lambda>options. Fails (JStr (ascii ''ECONNREFUSED''))"
  have url: "coursesURL ?env = ascii ''http://h:80/c''"
    by (simp add: coursesURL_def envString_def ascii_def)
  have kept: "list_all uriKept (coursesURL ?env)"
    unfolding url by (simp add: uriKept_def ascii_def)
  have "list_all uriKept (ascii ''http://h:80/c/?'')"
    by (simp add: uriKept_def ascii_def)
  then have enc: "encodeURI (ascii ''http://h:80/c/?'') = Inr (ascii ''http://h:80/c/?'')"
    by (rule encodeURI_kept)
  have unset: "\<not> envTruthy ?env (ascii ''SHOW_URLS'')"
    by (simp add: envTruthy_def ascii_def)
  have call: "generalRequest ?client ?env (ascii ''http://h:80/c/?'') (ascii ''GET'')
        JUndefined JUndefined []
      = (Fulfilled (JStr (ascii ''ECONNREFUSED'')),
         [HttpRequest \<lparr>opt_method = ascii ''GET'', opt_uri = ascii ''http://h:80/c/?'',
            opt_body = JUndefined, opt_json = True, opt_resolveWithFullResponse = JUndefined\<rparr>])"
    using generalRequest_fst [OF enc, of ?client ?env "ascii ''GET''" JUndefined JUndefined "[]"]
      generalRequest_snd [OF enc, of ?client ?env "ascii ''GET''" JUndefined JUndefined "[]"]
      unset
    by (simp add: prod_eq_iff)
  have "coursesURL ?env @ ascii ''/?'' = ascii ''http://h:80/c/?''"
    unfolding url by (simp add: ascii_def)
  with list_resolvers_without_parameters [of "[]" ?client ?env "[]" "[]"] call
  have "allCourses ?client ?env [] []
     = Inr (Fulfilled (JStr (ascii ''ECONNREFUSED'')),
            [HttpRequest \<lparr>opt_method = ascii ''GET'', opt_uri = ascii ''http://h:80/c/?'',
               opt_body = JUndefined, opt_json = True, opt_resolveWithFullResponse = JUndefined\<rparr>])"
    by simp
  with kept show ?thesis by blast
qed

text \<open>
  Claim C3, as stated: for every url, \<open>generalRequest\<close> returns every fault as its
  result. It does not: \<open>encodeURI\<close> runs while the options object is built, before
  the \<open>try\<close> block, and on a url with an unpaired surrogate (here the one code unit
  \<open>D800\<close>) it raises \<open>URIError\<close>, which rejects the promise; no request is made.
\<close>

theorem generalRequest_rejects_unpaired_surrogate:
  "generalRequest (\<lambda>options. Resolves JNull) Map.empty [0xD800] (ascii ''GET'')
       JUndefined JUndefined []
     = (Rejected URIError, [])"
  by (simp add: generalRequest_def uriKept_def isLeadSurrogate_def ascii_def)

text \<open>
  Claim C3, amended: for every url without an unpaired surrogate, and every method,
  body and behaviour of the HTTP client, \<open>encodeURI\<close> returns and the promise of
  \<open>generalRequest\<close> is fulfilled, never rejected: with the response when the client
  resolves, and with the error object when the client fails in any way.
\<close>

theorem generalRequest_returns_failures:
  assumes "wellFormed url"
  shows "\<exists>uri. encodeURI url = Inr uri \<and>
     fst (generalRequest request env url meth body full trace) =
       Fulfilled (case request \<lparr>opt_method = meth, opt_uri = uri, opt_body = body,
                     opt_json = True, opt_resolveWithFullResponse = full\<rparr> of
                    Resolves response \<Rightarrow> response | Fails err \<Rightarrow> err)"
proof -
  from assms obtain uri where "encodeURI url = Inr uri"
    using encodeURI_wellFormed [of url] by blast
  then show ?thesis using generalRequest_fst by blast
qed

theorem generalRequest_returns_failures_witness:
  "wellFormed (ascii ''a b'')
   \<and> fst (generalRequest (\<lambda>options. Fails (JObj [(ascii ''statusCode'', JNum 500)])) Map.empty
            (ascii ''a b'') (ascii ''POST'') JNull JUndefined [])
       = Fulfilled (JObj [(ascii ''statusCode'', JNum 500)])"
proof -
  have wf: "wellFormed (ascii ''a b'')"
    by (simp add: ascii_def isLeadSurrogate_def isTrailSurrogate_def)
  from generalRequest_returns_failures [OF wf,
      of "\<lambda>options. Fails (JObj [(ascii ''statusCode'', JNum 500)])" Map.empty
         "ascii ''POST''" JNull JUndefined "[]"]
  show ?thesis using wf by auto
qed

text \<open>
  Claim C8, as stated: with \<open>SHOW_URLS\<close> set, the URL on the log equals the
  percent-encoded URL of the request. It does not: the log line is the url as
  passed. For \<open>a b\<close> the log shows \<open>a b\<close> and the request goes to \<open>a%20b\<close>.
\<close>

theorem generalRequest_logs_unencoded_url:
  "snd (generalRequest (\<lambda>options. Resolves JNull) [ascii ''SHOW_URLS'' \<mapsto> ascii ''1'']
          (ascii ''a b'') (ascii ''GET'') JUndefined JUndefined [])
     = [ConsoleLog (ascii ''a b''),
        HttpRequest \<lparr>opt_method = ascii ''GET'', opt_uri = ascii ''a%20b'', opt_body = JUndefined,
          opt_json = True, opt_resolveWithFullResponse = JUndefined\<rparr>]
   \<and> ascii ''a b'' \<noteq> ascii ''a%20b''"
  using generalRequest_snd [OF encodeURI_space]
  by (simp add: envTruthy_def) (simp add: ascii_def)

text \<open>
  Claim C8, amended: with \<open>SHOW_URLS\<close> set and a url that \<open>encodeURI\<close> accepts, the
  call writes the url as passed (not encoded) to the log and then, next, issues the
  request, whose URL is \<open>encodeURI(url)\<close>; the two are equal when every character of
  the url is one that \<open>encodeURI\<close> keeps.
\<close>

theorem generalRequest_log_then_request:
  assumes "envTruthy env (ascii ''SHOW_URLS'')" and "encodeURI url = Inr uri"
  shows "snd (generalRequest request env url meth body full trace) =
           trace @ [ConsoleLog url,
                    HttpRequest \<lparr>opt_method = meth, opt_uri = uri, opt_body = body,
                      opt_json = True, opt_resolveWithFullResponse = full\<rparr>]
         \<and> (list_all uriKept url \<longrightarrow> uri = url)"
proof -
  have "list_all uriKept url \<longrightarrow> uri = url"
    using assms(2) encodeURI_kept [of url] by auto
  then show ?thesis
    using assms(1) generalRequest_snd [OF assms(2)] by simp
qed

theorem generalRequest_log_then_request_witness:
  "envTruthy [ascii ''SHOW_URLS'' \<mapsto> ascii ''true''] (ascii ''SHOW_URLS'')
   \<and> encodeURI (ascii ''http://h/c'') = Inr (ascii ''http://h/c'')
   \<and> list_all uriKept (ascii ''http://h/c'')
   \<and> snd (generalRequest (\<lambda>options. Resolves JNull) [ascii ''SHOW_URLS'' \<mapsto> ascii ''true'']
            (ascii ''http://h/c'') (ascii ''PUT'') JNull JUndefined [ConsoleLog []])
       = [ConsoleLog [], ConsoleLog (ascii ''http://h/c''),
          HttpRequest \<lparr>opt_method = ascii ''PUT'', opt_uri = ascii ''http://h/c'', opt_body = JNull,
            opt_json = True, opt_resolveWithFullResponse = JUndefined\<rparr>]"
proof -
  have flag: "envTruthy [ascii ''SHOW_URLS'' \<mapsto> ascii ''true''] (ascii ''SHOW_URLS'')"
    by (simp add: envTruthy_def) (simp add: ascii_def)
  have kept: "list_all uriKept (ascii ''http://h/c'')"
    by (simp add: uriKept_def ascii_def)
  have enc: "encodeURI (ascii ''http://h/c'') = Inr (ascii ''http://h/c'')"
    using kept by (rule encodeURI_kept)
  from generalRequest_log_then_request [OF flag enc,
      of "\<lambda>options. Resolves JNull" "ascii ''PUT''" JNull JUndefined "[ConsoleLog []]"]
  show ?thesis using flag enc kept by simp
qed

section \<open>Properties of the error normalizer\<close>

lemma getProp_defined:
  "v \<noteq> JUndefined \<Longrightarrow> v \<noteq> JNull \<Longrightarrow> getProp v name = Inr (propertyOf v name)"
  by (auto simp: getProp_def propertyOf_def split: option.splits jsval.splits)

lemma truthy_defined: "truthy v \<Longrightarrow> v \<noteq> JUndefined \<and> v \<noteq> JNull"
  by (cases v) simp_all

text \<open>
  What \<open>formatErr\<close> returns for an error object that the engine's formatter turns
  into an object: no property read raises, since \<open>error\<close> is read only from a truthy
  \<open>originalError\<close> and the fields only from a truthy nested error.
\<close>

lemma formatErr_result:
  assumes "error \<noteq> JUndefined" and "error \<noteq> JNull"
    and "formatError error = Inr data" and "data \<noteq> JUndefined" and "data \<noteq> JNull"
  shows "formatErr formatError error =
     Inr (if truthy (propertyOf error (ascii ''originalError''))
           \<and> truthy (propertyOf (propertyOf error (ascii ''originalError'')) (ascii ''error''))
          then JObj
            [(ascii ''message'',
                propertyOf (propertyOf (propertyOf error (ascii ''originalError'')) (ascii ''error''))
                  (ascii ''id'')),
             (ascii ''code'',
                propertyOf (propertyOf (propertyOf error (ascii ''originalError'')) (ascii ''error''))
                  (ascii ''code'')),
             (ascii ''description'',
                propertyOf (propertyOf (propertyOf error (ascii ''originalError'')) (ascii ''error''))
                  (ascii ''description'')),
             (ascii ''path'', propertyOf data (ascii ''path''))]
          else data)"
proof -
  let ?original = "propertyOf error (ascii ''originalError'')"
  let ?nested = "propertyOf ?original (ascii ''error'')"
  have read_original: "getProp error (ascii ''originalError'') = Inr ?original"
    using assms(1,2) by (rule getProp_defined)
  have read_path: "getProp data (ascii ''path'') = Inr (propertyOf data (ascii ''path''))"
    using assms(4,5) by (rule getProp_defined)
  show ?thesis
  proof (cases "truthy ?original")
    case False
    then show ?thesis
      by (simp add: formatErr_def bindE_def assms(3) read_original)
  next
    case original: True
    then have read_nested: "getProp ?original (ascii ''error'') = Inr ?nested"
      using truthy_defined getProp_defined by blast
    show ?thesis
    proof (cases "truthy ?nested")
      case False
      then show ?thesis
        by (simp add: formatErr_def bindE_def assms(3) read_original read_nested original)
    next
      case True
      then have fields: "getProp ?nested name = Inr (propertyOf ?nested name)" for name
        using truthy_defined getProp_defined by blast
      show ?thesis
        by (simp add: formatErr_def bindE_def assms(3) read_original read_nested read_path
              fields original True)
    qed
  qed
qed

text \<open>
  Claim C5, as stated: the normalized shape is returned when the nested error has the
  fields \<open>id\<close>, \<open>code\<close> and \<open>description\<close>, and the engine's formatting otherwise. The
  test of the code is only that \<open>originalError\<close> and its \<open>error\<close> are truthy. An
  original error whose \<open>error\<close> is the object \<open>{message: "down"}\<close> (the body of a
  failed backend call) has none of the three fields, and still \<open>formatErr\<close> returns
  the normalized shape, with \<open>undefined\<close> for the three, not the engine's formatting.
\<close>

theorem formatErr_unstructured_nested_error:
  "\<not> specStructured
       (JObj [(ascii ''message'', JStr (ascii ''boom'')),
              (ascii ''path'', JArr [JStr (ascii ''allCourses'')]),
              (ascii ''originalError'',
                 JObj [(ascii ''error'', JObj [(ascii ''message'', JStr (ascii ''down''))])])])
   \<and> formatErr
       (\<lambda>e. Inr (JObj [(ascii ''message'', propertyOf e (ascii ''message'')),
                        (ascii ''path'', propertyOf e (ascii ''path''))]))
       (JObj [(ascii ''message'', JStr (ascii ''boom'')),
              (ascii ''path'', JArr [JStr (ascii ''allCourses'')]),
              (ascii ''originalError'',
                 JObj [(ascii ''error'', JObj [(ascii ''message'', JStr (ascii ''down''))])])])
     = Inr (JObj [(ascii ''message'', JUndefined), (ascii ''code'', JUndefined),
                  (ascii ''description'', JUndefined),
                  (ascii ''path'', JArr [JStr (ascii ''allCourses'')])])
   \<and> Inr (JObj [(ascii ''message'', JUndefined), (ascii ''code'', JUndefined),
                  (ascii ''description'', JUndefined),
                  (ascii ''path'', JArr [JStr (ascii ''allCourses'')])])
     \<noteq> (Inr (JObj [(ascii ''message'', JStr (ascii ''boom'')),
                     (ascii ''path'', JArr [JStr (ascii ''allCourses'')])]) :: jserror + jsval)"
  by (simp add: specStructured_def hasOwn_def formatErr_def bindE_def getProp_def propertyOf_def
        ascii_def)

text \<open>
  Claim C5, amended: for every execution error (an object, which the engine's
  formatter turns into an object), if its \<open>originalError\<close> is truthy and the \<open>error\<close>
  of that is truthy, \<open>formatErr\<close> returns \<open>{message, code, description, path}\<close> with
  \<open>message\<close> the nested \<open>id\<close>, \<open>code\<close> and \<open>description\<close> those of the nested error
  (\<open>undefined\<close> where the nested error lacks one), and \<open>path\<close> that of the engine's
  formatting; otherwise it returns the engine's formatting unchanged.
\<close>

theorem formatErr_normalizes:
  assumes "error \<noteq> JUndefined" and "error \<noteq> JNull"
    and "formatError error = Inr data" and "data \<noteq> JUndefined" and "data \<noteq> JNull"
  shows "(truthy (propertyOf error (ascii ''originalError''))
           \<and> truthy (propertyOf (propertyOf error (ascii ''originalError'')) (ascii ''error''))
          \<longrightarrow> formatErr formatError error =
            Inr (JObj
              [(ascii ''message'',
                  propertyOf (propertyOf (propertyOf error (ascii ''originalError'')) (ascii ''error''))
                    (ascii ''id'')),
               (ascii ''code'',
                  propertyOf (propertyOf (propertyOf error (ascii ''originalError'')) (ascii ''error''))
                    (ascii ''code'')),
               (ascii ''description'',
                  propertyOf (propertyOf (propertyOf error (ascii ''originalError'')) (ascii ''error''))
                    (ascii ''description'')),
               (ascii ''path'', propertyOf data (ascii ''path''))]))
       \<and> (\<not> (truthy (propertyOf error (ascii ''originalError''))
              \<and> truthy (propertyOf (propertyOf error (ascii ''originalError'')) (ascii ''error'')))
          \<longrightarrow> formatErr formatError error = formatError error)"
  using formatErr_result [of error formatError data] assms by simp

theorem formatErr_normalizes_witness:
  "formatErr
       (\<lambda>e. Inr (JObj [(ascii ''message'', propertyOf e (ascii ''message'')),
                        (ascii ''path'', propertyOf e (ascii ''path''))]))
       (JObj [(ascii ''message'', JStr (ascii ''boom'')),
              (ascii ''path'', JArr [JStr (ascii ''courseByCode'')]),
              (ascii ''originalError'',
                 JObj [(ascii ''error'',
                    JObj [(ascii ''id'', JStr (ascii ''E1'')), (ascii ''code'', JNum 404),
                          (ascii ''description'', JStr (ascii ''not found''))])])])
     = Inr (JObj [(ascii ''message'', JStr (ascii ''E1'')), (ascii ''code'', JNum 404),
                  (ascii ''description'', JStr (ascii ''not found'')),
                  (ascii ''path'', JArr [JStr (ascii ''courseByCode'')])])
   \<and> formatErr
       (\<lambda>e. Inr (JObj [(ascii ''message'', propertyOf e (ascii ''message'')),
                        (ascii ''path'', propertyOf e (ascii ''path''))]))
       (JObj [(ascii ''message'', JStr (ascii ''boom'')),
              (ascii ''path'', JArr [JStr (ascii ''courseByCode'')])])
     = Inr (JObj [(ascii ''message'', JStr (ascii ''boom'')),
                  (ascii ''path'', JArr [JStr (ascii ''courseByCode'')])])"
proof -
  let ?fmt = "\<lambda>e. Inr (JObj [(ascii ''message'', propertyOf e (ascii ''message'')),
                        (ascii ''path'', propertyOf e (ascii ''path''))]) :: jserror + jsval"
  let ?structured = "JObj [(ascii ''message'', JStr (ascii ''boom'')),
              (ascii ''path'', JArr [JStr (ascii ''courseByCode'')]),
              (ascii ''originalError'',
                 JObj [(ascii ''error'',
                    JObj [(ascii ''id'', JStr (ascii ''E1'')), (ascii ''code'', JNum 404),
                          (ascii ''description'', JStr (ascii ''not found''))])])]"
  let ?plain = "JObj [(ascii ''message'', JStr (ascii ''boom'')),
              (ascii ''path'', JArr [JStr (ascii ''courseByCode'')])]"
  have first: "formatErr ?fmt ?structured
     = Inr (JObj [(ascii ''message'', JStr (ascii ''E1'')), (ascii ''code'', JNum 404),
                  (ascii ''description'', JStr (ascii ''not found'')),
                  (ascii ''path'', JArr [JStr (ascii ''courseByCode'')])])"
    using formatErr_normalizes [of ?structured ?fmt
        "JObj [(ascii ''message'', propertyOf ?structured (ascii ''message'')),
               (ascii ''path'', propertyOf ?structured (ascii ''path''))]"]
    by (simp add: getProp_def propertyOf_def ascii_def)
  have second: "formatErr ?fmt ?plain
     = Inr (JObj [(ascii ''message'', JStr (ascii ''boom'')),
                  (ascii ''path'', JArr [JStr (ascii ''courseByCode'')])])"
    using formatErr_normalizes [of ?plain ?fmt
        "JObj [(ascii ''message'', propertyOf ?plain (ascii ''message'')),
               (ascii ''path'', propertyOf ?plain (ascii ''path''))]"]
    by (simp add: getProp_def propertyOf_def ascii_def)
  from first second show ?thesis by simp
qed

text \<open>
  Claim C7. \<open>formatErr\<close> is a function of the error and of the engine's formatter
  alone, and it returns: for every execution error the engine hands it (an object,
  which the engine's formatter turns into an object) the result is a value, never a
  raised exception.
\<close>

theorem formatErr_total:
  assumes "error \<noteq> JUndefined" and "error \<noteq> JNull"
    and "formatError error = Inr data" and "data \<noteq> JUndefined" and "data \<noteq> JNull"
  shows "\<exists>result. formatErr formatError error = Inr result"
  using formatErr_result [of error formatError data] assms by blast

theorem formatErr_total_witness:
  "\<exists>result. formatErr (\<lambda>e. Inr (JObj [(ascii ''message'', propertyOf e (ascii ''message''))]))
       (JObj [(ascii ''message'', JStr (ascii ''boom'')),
              (ascii ''originalError'', JObj [(ascii ''error'', JStr (ascii ''ECONNREFUSED''))])])
     = Inr result"
  using formatErr_total
    [of "JObj [(ascii ''message'', JStr (ascii ''boom'')),
              (ascii ''originalError'', JObj [(ascii ''error'', JStr (ascii ''ECONNREFUSED''))])]"
        "\<lambda>e. Inr (JObj [(ascii ''message'', propertyOf e (ascii ''message''))])"
        "JObj [(ascii ''message'', JStr (ascii ''boom''))]"]
  by (simp add: getProp_def propertyOf_def ascii_def)

section \<open>Properties of the credential middleware\<close>

lemma stripPrefix_Some: "stripPrefix p s = Some rest \<longleftrightarrow> s = p @ rest"
  by (induction p s rule: stripPrefix.induct) auto

lemma takeWhile_run:
  "list_all P t \<Longrightarrow> rest = [] \<or> \<not> P (hd rest) \<Longrightarrow> takeWhile P (t @ rest) = t"
  by (induction t) (auto simp: takeWhile_eq_Nil_iff)

text \<open>The pattern at the start of a string: what the group is, and when there is none.\<close>

lemma matchHere_run:
  assumes "t \<noteq> []" and "list_all isAlnum t" and "rest = [] \<or> \<not> isAlnum (hd rest)"
  shows "matchHere (ascii ''Bearer '' @ t @ rest) = Some t"
proof -
  have "stripPrefix (ascii ''Bearer '') (ascii ''Bearer '' @ t @ rest) = Some (t @ rest)"
    by (simp add: stripPrefix_Some)
  moreover have "takeWhile isAlnum (t @ rest) = t"
    using assms(2,3) by (rule takeWhile_run)
  ultimately show ?thesis using assms(1) by (simp add: matchHere_def)
qed

lemma matchHere_Some:
  assumes "matchHere s = Some t"
  shows "\<exists>rest. s = ascii ''Bearer '' @ t @ rest \<and> t \<noteq> [] \<and> list_all isAlnum t
           \<and> (rest = [] \<or> \<not> isAlnum (hd rest))"
proof -
  from assms obtain tail where tail: "stripPrefix (ascii ''Bearer '') s = Some tail"
    and run: "t = takeWhile isAlnum tail" and nonempty: "t \<noteq> []"
    by (auto simp: matchHere_def Let_def split: option.splits if_splits)
  have "s = ascii ''Bearer '' @ t @ dropWhile isAlnum tail"
    using tail run by (simp add: stripPrefix_Some)
  moreover have "list_all isAlnum t"
    unfolding run list_all_iff by (auto dest: set_takeWhileD)
  moreover have "dropWhile isAlnum tail = [] \<or> \<not> isAlnum (hd (dropWhile isAlnum tail))"
    using hd_dropWhile [of isAlnum tail] by blast
  ultimately show ?thesis using nonempty by blast
qed

lemma matchHere_None:
  "matchHere s = None \<longleftrightarrow> (\<forall>c rest. s = ascii ''Bearer '' @ c # rest \<longrightarrow> \<not> isAlnum c)"
proof
  assume none: "matchHere s = None"
  show "\<forall>c rest. s = ascii ''Bearer '' @ c # rest \<longrightarrow> \<not> isAlnum c"
  proof (intro allI impI)
    fix c rest
    assume s: "s = ascii ''Bearer '' @ c # rest"
    then have "stripPrefix (ascii ''Bearer '') s = Some (c # rest)"
      by (simp add: stripPrefix_Some)
    with none show "\<not> isAlnum c"
      by (auto simp: matchHere_def Let_def split: if_splits)
  qed
next
  assume no: "\<forall>c rest. s = ascii ''Bearer '' @ c # rest \<longrightarrow> \<not> isAlnum c"
  show "matchHere s = None"
  proof (cases "matchHere s")
    case None
    then show ?thesis .
  next
    case (Some t)
    then obtain rest where "s = ascii ''Bearer '' @ t @ rest" and "t \<noteq> []" and "list_all isAlnum t"
      using matchHere_Some by blast
    then obtain c cs where "s = ascii ''Bearer '' @ c # (cs @ rest)" and "isAlnum c"
      by (cases t) auto
    with no show ?thesis by blast
  qed
qed

text \<open>The search takes the leftmost position at which the pattern matches.\<close>

lemma bearerMatch_leftmost:
  assumes "\<forall>i<length pre. matchHere (drop i (pre @ s)) = None" and "matchHere s = Some t"
  shows "bearerMatch (pre @ s) = Some t"
  using assms
proof (induction pre)
  case Nil
  then show ?case by (cases s) (auto simp: matchHere_def stripPrefix_Some ascii_def)
next
  case (Cons c pre)
  from Cons.prems(1) have here: "matchHere (c # pre @ s) = None"
    by (metis append_Cons drop0 length_greater_0_conv list.distinct(1))
  have "\<forall>i<length pre. matchHere (drop i (pre @ s)) = None"
  proof (intro allI impI)
    fix i assume "i < length pre"
    then have "Suc i < length (c # pre)" by simp
    with Cons.prems(1) have "matchHere (drop (Suc i) ((c # pre) @ s)) = None" by blast
    then show "matchHere (drop i (pre @ s)) = None" by simp
  qed
  with Cons.IH Cons.prems(2) have "bearerMatch (pre @ s) = Some t" by blast
  with here show ?case by simp
qed

lemma bearerMatch_Some:
  "bearerMatch h = Some t \<Longrightarrow>
     \<exists>pre s. h = pre @ s \<and> matchHere s = Some t
       \<and> (\<forall>i<length pre. matchHere (drop i h) = None)"
proof (induction h)
  case Nil
  then show ?case by simp
next
  case (Cons c cs)
  show ?case
  proof (cases "matchHere (c # cs)")
    case (Some g)
    with Cons.prems have "g = t" by simp
    with Some have "c # cs = [] @ (c # cs) \<and> matchHere (c # cs) = Some t
        \<and> (\<forall>i<length ([] :: jsstring). matchHere (drop i (c # cs)) = None)"
      by simp
    then show ?thesis by blast
  next
    case None
    with Cons.prems have "bearerMatch cs = Some t" by simp
    with Cons.IH obtain pre s where split: "cs = pre @ s" and found: "matchHere s = Some t"
      and before: "\<forall>i<length pre. matchHere (drop i cs) = None"
      by blast
    have "\<forall>i<length (c # pre). matchHere (drop i (c # cs)) = None"
    proof (intro allI impI)
      fix i assume i: "i < length (c # pre)"
      show "matchHere (drop i (c # cs)) = None"
      proof (cases i)
        case 0
        then show ?thesis using None by simp
      next
        case (Suc j)
        then show ?thesis using i before by simp
      qed
    qed
    with split found have "c # cs = (c # pre) @ s \<and> matchHere s = Some t
        \<and> (\<forall>i<length (c # pre). matchHere (drop i (c # cs)) = None)"
      by simp
    then show ?thesis by blast
  qed
qed

lemma bearerMatch_None:
  "bearerMatch h = None \<longleftrightarrow> (\<forall>i. matchHere (drop i h) = None)"
proof (induction h)
  case Nil
  then show ?case by (simp add: matchHere_def ascii_def)
next
  case (Cons c cs)
  show ?case
  proof
    assume none: "bearerMatch (c # cs) = None"
    then have here: "matchHere (c # cs) = None" and later: "bearerMatch cs = None"
      by (auto split: option.splits)
    show "\<forall>i. matchHere (drop i (c # cs)) = None"
    proof
      fix i
      show "matchHere (drop i (c # cs)) = None"
        using here later Cons.IH by (cases i) auto
    qed
  next
    assume all: "\<forall>i. matchHere (drop i (c # cs)) = None"
    then have "matchHere (drop 0 (c # cs)) = None" by blast
    then have here: "matchHere (c # cs) = None" by simp
    have "\<forall>i. matchHere (drop i cs) = None"
    proof
      fix i
      from all have "matchHere (drop (Suc i) (c # cs)) = None" by blast
      then show "matchHere (drop i cs) = None" by simp
    qed
    with Cons.IH have "bearerMatch cs = None" by blast
    with here show "bearerMatch (c # cs) = None" by simp
  qed
qed

lemma contextToken_match:
  "contextToken (Some h) = (case bearerMatch h of None \<Rightarrow> JUndefined | Some t \<Rightarrow> JStr t)"
proof (cases "bearerMatch h")
  case None
  then show ?thesis
    by (simp add: contextToken_def tokenMiddleware_def freshContext_def)
next
  case (Some t)
  then obtain pre s where "matchHere s = Some t" using bearerMatch_Some by blast
  then have "t \<noteq> []" using matchHere_Some by blast
  moreover have "h \<noteq> []" using Some by auto
  ultimately show ?thesis using Some
    by (simp add: contextToken_def tokenMiddleware_def freshContext_def)
qed

text \<open>
  Claim C10. The \<open>token\<close> of the resolver context is \<open>undefined\<close> when the request
  has no \<open>Authorization\<close> header, and when at no position of the header \<open>Bearer \<close> is
  followed by an alphanumeric. Otherwise it is the run \<open>t\<close> of alphanumerics that
  follows the leftmost such \<open>Bearer \<close>, taken up to the first character that is not
  alphanumeric (or the end of the header): it is never anything else. A JWT is cut at
  its first dot.
\<close>

theorem bearer_token_extraction:
  "contextToken None = JUndefined
   \<and> ((\<forall>i c tail. drop i h = ascii ''Bearer '' @ c # tail \<longrightarrow> \<not> isAlnum c)
        \<longrightarrow> contextToken (Some h) = JUndefined)
   \<and> (t \<noteq> [] \<and> list_all isAlnum t \<and> (rest = [] \<or> \<not> isAlnum (hd rest))
        \<and> (\<forall>i<length pre. \<forall>c tail.
              drop i (pre @ ascii ''Bearer '' @ t @ rest) = ascii ''Bearer '' @ c # tail
                \<longrightarrow> \<not> isAlnum c)
        \<longrightarrow> contextToken (Some (pre @ ascii ''Bearer '' @ t @ rest)) = JStr t)
   \<and> (contextToken (Some h) = JUndefined
        \<or> (\<exists>before run after.
              h = before @ ascii ''Bearer '' @ run @ after
              \<and> run \<noteq> [] \<and> list_all isAlnum run \<and> (after = [] \<or> \<not> isAlnum (hd after))
              \<and> (\<forall>i<length before. \<forall>c tail.
                    drop i h = ascii ''Bearer '' @ c # tail \<longrightarrow> \<not> isAlnum c)
              \<and> contextToken (Some h) = JStr run))
   \<and> contextToken (Some (ascii ''Bearer eyJhbGciOiJIUzI1NiJ9.eyJzdWIiOiIxIn0.c2ln''))
       = JStr (ascii ''eyJhbGciOiJIUzI1NiJ9'')"
proof -
  have absent: "contextToken None = JUndefined"
    by (simp add: contextToken_def tokenMiddleware_def freshContext_def)
  have unmatched: "contextToken (Some h) = JUndefined"
    if "\<forall>i c tail. drop i h = ascii ''Bearer '' @ c # tail \<longrightarrow> \<not> isAlnum c"
  proof -
    from that have "\<forall>i. matchHere (drop i h) = None"
      using matchHere_None by blast
    then have "bearerMatch h = None" using bearerMatch_None by blast
    then show ?thesis by (simp add: contextToken_match)
  qed
  have matched: "contextToken (Some (pre @ ascii ''Bearer '' @ t @ rest)) = JStr t"
    if run: "t \<noteq> []" "list_all isAlnum t" "rest = [] \<or> \<not> isAlnum (hd rest)"
      and first: "\<forall>i<length pre. \<forall>c tail.
              drop i (pre @ ascii ''Bearer '' @ t @ rest) = ascii ''Bearer '' @ c # tail
                \<longrightarrow> \<not> isAlnum c"
  proof -
    have "matchHere (ascii ''Bearer '' @ t @ rest) = Some t"
      using run by (rule matchHere_run)
    moreover have "\<forall>i<length pre. matchHere (drop i (pre @ ascii ''Bearer '' @ t @ rest)) = None"
      using first matchHere_None by blast
    ultimately have "bearerMatch (pre @ ascii ''Bearer '' @ t @ rest) = Some t"
      using bearerMatch_leftmost by blast
    then show ?thesis by (simp add: contextToken_match)
  qed
  have only: "contextToken (Some h) = JUndefined
        \<or> (\<exists>before run after.
              h = before @ ascii ''Bearer '' @ run @ after
              \<and> run \<noteq> [] \<and> list_all isAlnum run \<and> (after = [] \<or> \<not> isAlnum (hd after))
              \<and> (\<forall>i<length before. \<forall>c tail.
                    drop i h = ascii ''Bearer '' @ c # tail \<longrightarrow> \<not> isAlnum c)
              \<and> contextToken (Some h) = JStr run)"
  proof (cases "bearerMatch h")
    case None
    then show ?thesis by (simp add: contextToken_match)
  next
    case (Some run)
    then obtain before s where split: "h = before @ s" and found: "matchHere s = Some run"
      and leftmost: "\<forall>i<length before. matchHere (drop i h) = None"
      using bearerMatch_Some by blast
    from found obtain after where "s = ascii ''Bearer '' @ run @ after" and "run \<noteq> []"
      and "list_all isAlnum run" and "after = [] \<or> \<not> isAlnum (hd after)"
      using matchHere_Some by blast
    moreover have "\<forall>i<length before. \<forall>c tail.
        drop i h = ascii ''Bearer '' @ c # tail \<longrightarrow> \<not> isAlnum c"
      using leftmost matchHere_None by blast
    moreover have "contextToken (Some h) = JStr run"
      using Some by (simp add: contextToken_match)
    ultimately show ?thesis using split by blast
  qed
  have jwt: "contextToken (Some (ascii ''Bearer eyJhbGciOiJIUzI1NiJ9.eyJzdWIiOiIxIn0.c2ln''))
       = JStr (ascii ''eyJhbGciOiJIUzI1NiJ9'')"
    by (simp add: contextToken_match)
      (simp add: matchHere_def isAlnum_def ascii_def)
  from absent unmatched matched only jwt show ?thesis by blast
qed

theorem bearer_token_extraction_witness:
  "contextToken (Some (ascii ''Basic abc'')) = JUndefined
   \<and> contextToken (Some (ascii ''xBearer abc.def'')) = JStr (ascii ''abc'')"
proof -
  have "bearerMatch (ascii ''Basic abc'') = None"
    by (simp add: matchHere_def ascii_def)
  then have nowhere:
    "\<forall>i c tail. drop i (ascii ''Basic abc'') = ascii ''Bearer '' @ c # tail \<longrightarrow> \<not> isAlnum c"
    using bearerMatch_None matchHere_None by blast
  have run: "ascii ''abc'' \<noteq> [] \<and> list_all isAlnum (ascii ''abc'')
      \<and> (ascii ''.def'' = [] \<or> \<not> isAlnum (hd (ascii ''.def'')))"
    by (simp add: isAlnum_def ascii_def)
  have first: "\<forall>i<length (ascii ''x''). \<forall>c tail.
      drop i (ascii ''x'' @ ascii ''Bearer '' @ ascii ''abc'' @ ascii ''.def'')
        = ascii ''Bearer '' @ c # tail \<longrightarrow> \<not> isAlnum c"
    by (simp add: ascii_def)
  from bearer_token_extraction
    [of "ascii ''Basic abc''" "ascii ''abc''" "ascii ''.def''" "ascii ''x''"] nowhere run first
  have "contextToken (Some (ascii ''Basic abc'')) = JUndefined
    \<and> contextToken (Some (ascii ''x'' @ ascii ''Bearer '' @ ascii ''abc'' @ ascii ''.def''))
        = JStr (ascii ''abc'')"
    by blast
  then show ?thesis by (simp add: ascii_def)
qed

section \<open>Properties of the schema text\<close>

text \<open>
  The embedding of ASCII literals is injective, so a search in an embedded text can
  be run on the literal itself.
\<close>

lemma of_char_bound: "(of_char c :: nat) < 2 ^ LENGTH(16)"
proof -
  have "(of_char c :: nat) < 256" by (rule nat_of_char_less_256)
  also have "(256 :: nat) < 2 ^ LENGTH(16)" by simp
  finally show ?thesis .
qed

lemma unat_of_char: "unat (of_char c :: 16 word) = of_char c"
proof -
  have "(of_char c :: 16 word) = word_of_nat (of_char c)"
    by (simp only: of_nat_of_char)
  then have "unat (of_char c :: 16 word) = (of_char c :: nat) mod 2 ^ LENGTH(16)"
    by (simp only: unat_of_nat)
  also have "\<dots> = of_char c"
    using of_char_bound by (rule mod_less)
  finally show ?thesis .
qed

lemma of_char_word16_inj: "(of_char c :: 16 word) = of_char d \<longleftrightarrow> c = d"
proof
  assume "(of_char c :: 16 word) = of_char d"
  then have "unat (of_char c :: 16 word) = unat (of_char d :: 16 word)" by (rule arg_cong)
  then have "(of_char c :: nat) = of_char d" by (simp only: unat_of_char)
  then show "c = d" by (rule of_char_eqI)
next
  assume "c = d"
  then show "(of_char c :: 16 word) = of_char d" by (rule arg_cong)
qed

lemma ascii_Nil: "ascii [] = []"
  by (simp add: ascii_def)

lemma ascii_Cons: "ascii (c # s) = of_char c # ascii s"
  by (simp add: ascii_def)

lemma ascii_append: "ascii (a @ b) = ascii a @ ascii b"
  by (simp add: ascii_def)

lemma startsWith_ascii: "startsWith (ascii s) (ascii p) = startsWith s p"
proof (induction s p rule: startsWith.induct)
  case (1 s)
  then show ?case by (simp only: ascii_Nil startsWith.simps)
next
  case (2 p ps)
  then show ?case by (simp only: ascii_Nil ascii_Cons startsWith.simps)
next
  case (3 c cs p ps)
  then show ?case by (simp only: ascii_Cons startsWith.simps of_char_word16_inj)
qed

lemma occurrences_ascii: "occurrences (ascii s) (ascii p) = occurrences s p"
proof (induction s)
  case Nil
  show ?case by (simp add: ascii_def)
next
  case (Cons c s)
  have "startsWith (of_char c # ascii s) (ascii p) = startsWith (c # s) p"
    using startsWith_ascii [of "c # s" p] by (simp only: ascii_Cons)
  with Cons show ?case by (simp only: ascii_Cons occurrences.simps)
qed

text \<open>The schema text that the start-up call produces, line by line.\<close>

lemma mergedTypeDefs_text:
  "mergedTypeDefs = Inr (ascii
      (''scalar JSON\<newline>'' @
       ''\<newline>'' @
       ''type Course {\<newline>'' @
       ''    code: Int!\<newline>'' @
       ''    name: String!\<newline>'' @
       ''    credits: Int!\<newline>'' @
       ''    professor: String!\<newline>'' @
       ''}\<newline>'' @
       ''input CourseInput {\<newline>'' @
       ''    name: String!\<newline>'' @
       ''    credits: Int!\<newline>'' @
       ''    professor: String!\<newline>'' @
       ''}\<newline>'' @
       ''    type Query { \<newline>'' @
       ''    allCourses: [Course]!\<newline>'' @
       ''    courseByCode(code: Int!): Course!\<newline>'' @
       '' }\<newline>'' @
       ''    type Mutation { \<newline>'' @
       ''    createCourse(course: CourseInput!): Course!\<newline>'' @
       ''    deleteCourse(code: Int!): Int\<newline>'' @
       ''    updateCourse(code: Int!, course: CourseInput!): Course!\<newline>'' @
       '' }''))"
  unfolding mergedTypeDefs_def mergeSchemas_def coursesTypeDef_def coursesQueries_def
    coursesMutations_def callMergeSchemas.simps join.simps
  by (simp add: ascii_append [symmetric])

text \<open>
  Claim C1. The call at start-up passes the fragments of the students as a fourth,
  fifth and sixth argument, and \<open>mergeSchemas\<close> has three parameters: the text it
  returns declares the fields of the courses and none of the students, though the
  resolver map has resolvers for both. The composed text does not declare
  \<open>allStudents\<close>, \<open>studentByCode\<close>, \<open>createStudent\<close>, \<open>updateStudent\<close> and
  \<open>deleteStudent\<close>, nor the types \<open>Student\<close> and \<open>StudentInput\<close>.
\<close>

theorem mergedTypeDefs_omits_students:
  "\<exists>schema. mergedTypeDefs = Inr schema
     \<and> mentions schema ''allCourses: [Course]!''
     \<and> mentions schema ''courseByCode(code: Int!): Course!''
     \<and> mentions schema ''createCourse(course: CourseInput!): Course!''
     \<and> mentions schema ''updateCourse(code: Int!, course: CourseInput!): Course!''
     \<and> mentions schema ''deleteCourse(code: Int!): Int''
     \<and> \<not> mentions schema ''allStudents''
     \<and> \<not> mentions schema ''studentByCode''
     \<and> \<not> mentions schema ''createStudent''
     \<and> \<not> mentions schema ''updateStudent''
     \<and> \<not> mentions schema ''deleteStudent''
     \<and> \<not> mentions schema ''Student''"
proof -
  let ?schema = "''scalar JSON\<newline>'' @
       ''\<newline>'' @
       ''type Course {\<newline>'' @
       ''    code: Int!\<newline>'' @
       ''    name: String!\<newline>'' @
       ''    credits: Int!\<newline>'' @
       ''    professor: String!\<newline>'' @
       ''}\<newline>'' @
       ''input CourseInput {\<newline>'' @
       ''    name: String!\<newline>'' @
       ''    credits: Int!\<newline>'' @
       ''    professor: String!\<newline>'' @
       ''}\<newline>'' @
       ''    type Query { \<newline>'' @
       ''    allCourses: [Course]!\<newline>'' @
       ''    courseByCode(code: Int!): Course!\<newline>'' @
       '' }\<newline>'' @
       ''    type Mutation { \<newline>'' @
       ''    createCourse(course: CourseInput!): Course!\<newline>'' @
       ''    deleteCourse(code: Int!): Int\<newline>'' @
       ''    updateCourse(code: Int!, course: CourseInput!): Course!\<newline>'' @
       '' }''"
  have p1: "mentions (ascii ?schema) ''allCourses: [Course]!''"
    unfolding mentions_def occurrences_ascii by code_simp
  have p2: "mentions (ascii ?schema) ''courseByCode(code: Int!): Course!''"
    unfolding mentions_def occurrences_ascii by code_simp
  have p3: "mentions (ascii ?schema) ''createCourse(course: CourseInput!): Course!''"
    unfolding mentions_def occurrences_ascii by code_simp
  have p4: "mentions (ascii ?schema) ''updateCourse(code: Int!, course: CourseInput!): Course!''"
    unfolding mentions_def occurrences_ascii by code_simp
  have p5: "mentions (ascii ?schema) ''deleteCourse(code: Int!): Int''"
    unfolding mentions_def occurrences_ascii by code_simp
  have n1: "\<not> mentions (ascii ?schema) ''allStudents''"
    unfolding mentions_def occurrences_ascii by code_simp
  have n2: "\<not> mentions (ascii ?schema) ''studentByCode''"
    unfolding mentions_def occurrences_ascii by code_simp
  have n3: "\<not> mentions (ascii ?schema) ''createStudent''"
    unfolding mentions_def occurrences_ascii by code_simp
  have n4: "\<not> mentions (ascii ?schema) ''updateStudent''"
    unfolding mentions_def occurrences_ascii by code_simp
  have n5: "\<not> mentions (ascii ?schema) ''deleteStudent''"
    unfolding mentions_def occurrences_ascii by code_simp
  have n6: "\<not> mentions (ascii ?schema) ''Student''"
    unfolding mentions_def occurrences_ascii by code_simp
  from mergedTypeDefs_text p1 p2 p3 p4 p5 n1 n2 n3 n4 n5 n6 show ?thesis by blast
qed











section \<open>Properties of the resolvers\<close>

text \<open>
  Claim C2. The create and update resolvers of the courses pass the argument \<open>course\<close>
  as the body. Those of the students read the argument \<open>course\<close> as well, while the
  schema names their payload \<open>student\<close>: called with \<open>{student: s}\<close> and
  \<open>{code: k, student: s}\<close> they send the body \<open>undefined\<close>, whatever \<open>s\<close> is. Method
  and URL are as claimed (the URL of an update is made of the code \<open>k\<close> as the template
  literal prints it), and the result of \<open>generalRequest\<close> is returned as it is.
\<close>

theorem student_mutations_send_no_body:
  "createStudent request env [(ascii ''student'', s)] trace =
     Inr (generalRequest request env (studentsURL env) (ascii ''POST'')
            JUndefined JUndefined trace)
   \<and> updateStudent request env [(ascii ''code'', k), (ascii ''student'', s)] trace =
     (case toString k of
        Inl e \<Rightarrow> Inl e
      | Inr code \<Rightarrow>
          Inr (generalRequest request env (studentsURL env @ ascii ''/'' @ code) (ascii ''PUT'')
                 JUndefined JUndefined trace))
   \<and> createCourse request env [(ascii ''course'', s)] trace =
     Inr (generalRequest request env (coursesURL env) (ascii ''POST'') s JUndefined trace)
   \<and> updateCourse request env [(ascii ''code'', k), (ascii ''course'', s)] trace =
     (case toString k of
        Inl e \<Rightarrow> Inl e
      | Inr code \<Rightarrow>
          Inr (generalRequest request env (coursesURL env @ ascii ''/'' @ code) (ascii ''PUT'')
                 s JUndefined trace))
   \<and> createStudent (\<lambda>options. Resolves JNull)
        [ascii ''STUDENTS_URL'' \<mapsto> ascii ''h'', ascii ''STUDENTS_PORT'' \<mapsto> ascii ''80'',
         ascii ''STUDENTS_ENTRY'' \<mapsto> ascii ''s'']
        [(ascii ''student'',
            JObj [(ascii ''username'', JStr (ascii ''u'')), (ascii ''password'', JStr (ascii ''p''))])]
        []
     = Inr (Fulfilled JNull,
            [HttpRequest \<lparr>opt_method = ascii ''POST'', opt_uri = ascii ''http://h:80/s'',
               opt_body = JUndefined, opt_json = True, opt_resolveWithFullResponse = JUndefined\<rparr>])
   \<and> updateStudent (\<lambda>options. Resolves JNull)
        [ascii ''STUDENTS_URL'' \<mapsto> ascii ''h'', ascii ''STUDENTS_PORT'' \<mapsto> ascii ''80'',
         ascii ''STUDENTS_ENTRY'' \<mapsto> ascii ''s'']
        [(ascii ''code'', JNum 3),
         (ascii ''student'',
            JObj [(ascii ''username'', JStr (ascii ''u'')), (ascii ''password'', JStr (ascii ''p''))])]
        []
     = Inr (Fulfilled JNull,
            [HttpRequest \<lparr>opt_method = ascii ''PUT'', opt_uri = ascii ''http://h:80/s/3'',
               opt_body = JUndefined, opt_json = True, opt_resolveWithFullResponse = JUndefined\<rparr>])"
proof -
  have create_student: "createStudent request env [(ascii ''student'', s)] trace =
     Inr (generalRequest request env (studentsURL env) (ascii ''POST'')
            JUndefined JUndefined trace)"
    for request env trace s
    by (simp add: createStudent_def arg_def) (simp add: ascii_def)
  have update_student:
    "updateStudent request env [(ascii ''code'', k), (ascii ''student'', s)] trace =
     (case toString k of
        Inl e \<Rightarrow> Inl e
      | Inr code \<Rightarrow>
          Inr (generalRequest request env (studentsURL env @ ascii ''/'' @ code) (ascii ''PUT'')
                 JUndefined JUndefined trace))"
    for request env trace s k
    by (simp add: updateStudent_def codeURL_def arg_def split: sum.splits) (simp add: ascii_def)
  have create_course: "createCourse request env [(ascii ''course'', s)] trace =
     Inr (generalRequest request env (coursesURL env) (ascii ''POST'') s JUndefined trace)"
    by (simp add: createCourse_def arg_def)
  have update_course:
    "updateCourse request env [(ascii ''code'', k), (ascii ''course'', s)] trace =
     (case toString k of
        Inl e \<Rightarrow> Inl e
      | Inr code \<Rightarrow>
          Inr (generalRequest request env (coursesURL env @ ascii ''/'' @ code) (ascii ''PUT'')
                 s JUndefined trace))"
    by (simp add: updateCourse_def codeURL_def arg_def split: sum.splits) (simp add: ascii_def)
  let ?env = "[ascii ''STUDENTS_URL'' \<mapsto> ascii ''h'', ascii ''STUDENTS_PORT'' \<mapsto> ascii ''80'',
         ascii ''STUDENTS_ENTRY'' \<mapsto> ascii ''s'']"
  let ?client = "\<lambda>options. Resolves JNull"
  have url: "studentsURL ?env = ascii ''http://h:80/s''"
    by (simp add: studentsURL_def envString_def ascii_def)
  have three: "numToString 3 = ascii ''3''"
    by (simp add: numToString_def decimal.simps ascii_def)
  have url3: "ascii ''http://h:80/s'' @ ascii ''/'' @ ascii ''3'' = ascii ''http://h:80/s/3''"
    by (simp add: ascii_def)
  have unset: "\<not> envTruthy ?env (ascii ''SHOW_URLS'')"
    by (simp add: envTruthy_def ascii_def)
  have sent: "generalRequest ?client ?env url meth JUndefined JUndefined []
      = (Fulfilled JNull,
         [HttpRequest \<lparr>opt_method = meth, opt_uri = url, opt_body = JUndefined,
            opt_json = True, opt_resolveWithFullResponse = JUndefined\<rparr>])"
    if "list_all uriKept url" for url meth
    using generalRequest_fst [OF encodeURI_kept [OF that], of ?client ?env meth JUndefined JUndefined "[]"]
      generalRequest_snd [OF encodeURI_kept [OF that], of ?client ?env meth JUndefined JUndefined "[]"]
      unset
    by (simp add: prod_eq_iff)
  have kept: "list_all uriKept (ascii ''http://h:80/s'')" "list_all uriKept (ascii ''http://h:80/s/3'')"
    by (simp_all add: uriKept_def ascii_def)
  have concrete_create: "createStudent ?client ?env
        [(ascii ''student'',
            JObj [(ascii ''username'', JStr (ascii ''u'')), (ascii ''password'', JStr (ascii ''p''))])]
        []
     = Inr (Fulfilled JNull,
            [HttpRequest \<lparr>opt_method = ascii ''POST'', opt_uri = ascii ''http://h:80/s'',
               opt_body = JUndefined, opt_json = True, opt_resolveWithFullResponse = JUndefined\<rparr>])"
    unfolding create_student url using sent [OF kept(1)] by simp
  have concrete_update: "updateStudent ?client ?env
        [(ascii ''code'', JNum 3),
         (ascii ''student'',
            JObj [(ascii ''username'', JStr (ascii ''u'')), (ascii ''password'', JStr (ascii ''p''))])]
        []
     = Inr (Fulfilled JNull,
            [HttpRequest \<lparr>opt_method = ascii ''PUT'', opt_uri = ascii ''http://h:80/s/3'',
               opt_body = JUndefined, opt_json = True, opt_resolveWithFullResponse = JUndefined\<rparr>])"
    using sent [OF kept(2)] by (simp add: update_student url three url3)
  from create_student update_student create_course update_course concrete_create concrete_update
  show ?thesis by blast
qed

end
